theory Spec2Isabelle
  imports Complex_Main "HOL-Library.Sublist"
begin

section \<open>Strings\<close>

text \<open>
  A JavaScript string is a sequence of UTF-16 code units. The project pages carry Russian
  text, so a string is modelled as the list of its code units; \<open>ascii\<close> turns an ASCII
  literal into that form. Code units above \<open>0x7F\<close> are written as hexadecimal numerals
  (\<open>0x41F\<close> is the Cyrillic capital letter Pe, \<open>0x2011\<close> the non-breaking hyphen of the
  project titles).
\<close>

type_synonym jsstring = "nat list"

definition ascii :: "string \<Rightarrow> jsstring" where
  "ascii s = map of_char s"

text \<open>
  \<open>String.prototype.includes\<close> with one argument: does \<open>sub\<close> occur in \<open>s\<close> as a
  contiguous run of code units.
\<close>

fun js_includes :: "jsstring \<Rightarrow> jsstring \<Rightarrow> bool" where
  "js_includes [] sub = (sub = [])"
| "js_includes (c # cs) sub = (prefix sub (c # cs) \<or> js_includes cs sub)"

section \<open>Project content (\<open>ProjectPage\<close>)\<close>

record ProjectContent =
  title :: jsstring
  bullets :: "jsstring list"
  tech :: jsstring
  screens :: "jsstring list"

text \<open>
  The \<open>useMemo\<close> callback of \<open>ProjectPage\<close> that computes \<open>content\<close> from \<open>id\<close>: a
  \<open>switch\<close> with three cases and a \<open>default\<close>. The specification calls it
  \<open>resolveContent\<close>.
\<close>

definition content :: "jsstring \<Rightarrow> ProjectContent" where
  "content pid =
    (if pid = ascii ''crm'' then
       \<lparr> title = [0x41C, 0x438, 0x43D, 0x438, 0x2011] @ ascii ''CRM '' @ [0x434, 0x43B, 0x44F]
             @ ascii '' '' @ [0x43E, 0x442, 0x434, 0x435, 0x43B, 0x430] @ ascii '' ''
             @ [0x43F, 0x440, 0x43E, 0x434, 0x430, 0x436],
         bullets =
           [ [0x421, 0x434, 0x435, 0x43B, 0x43A, 0x438] @ ascii '': ''
               @ [0x441, 0x442, 0x430, 0x442, 0x443, 0x441, 0x44B] @ ascii '', ''
               @ [0x43E, 0x442, 0x432, 0x435, 0x442, 0x441, 0x442, 0x432, 0x435, 0x43D, 0x43D, 0x44B, 0x435],
             [0x412, 0x43E, 0x440, 0x43E, 0x43D, 0x43A, 0x430] @ ascii '': ''
               @ [0x441, 0x442, 0x430, 0x434, 0x438, 0x438] @ ascii '', ''
               @ [0x43A, 0x43E, 0x43D, 0x432, 0x435, 0x440, 0x441, 0x438, 0x438],
             [0x417, 0x430, 0x434, 0x430, 0x447, 0x438] @ ascii '': ''
               @ [0x434, 0x435, 0x434, 0x43B, 0x430, 0x439, 0x43D, 0x44B] @ ascii '', ''
               @ [0x43D, 0x430, 0x43F, 0x43E, 0x43C, 0x438, 0x43D, 0x430, 0x43D, 0x438, 0x44F],
             ascii ''BI'' @ [0x2011, 0x432, 0x44C, 0x44E] @ ascii '': ''
               @ [0x43F, 0x440, 0x43E, 0x433, 0x43D, 0x43E, 0x437] @ ascii '' '' @ [0x438]
               @ ascii '' '' @ [0x43E, 0x442, 0x447, 0x451, 0x442, 0x43D, 0x43E, 0x441, 0x442, 0x44C] ],
         tech = ascii ''Excel + Python + Power BI'',
         screens = [ascii ''/screens/crm1.png'', ascii ''/screens/crm2.png''] \<rparr>
     else if pid = ascii ''game'' then
       \<lparr> title = [0x418, 0x433, 0x440, 0x43E, 0x432, 0x43E, 0x439] @ ascii '' ''
             @ [0x43F, 0x440, 0x43E, 0x442, 0x43E, 0x442, 0x438, 0x43F] @ ascii '' (2D)'',
         bullets =
           [ [0x42D, 0x43A, 0x43E, 0x43D, 0x43E, 0x43C, 0x438, 0x43A, 0x430] @ ascii '' ''
               @ [0x440, 0x435, 0x441, 0x443, 0x440, 0x441, 0x43E, 0x432],
             [0x418, 0x418] @ ascii '' '' @ [0x432, 0x440, 0x430, 0x433, 0x43E, 0x432],
             ascii ''UI'' @ [0x2011, 0x43C, 0x435, 0x43D, 0x44E] @ ascii '', ''
               @ [0x442, 0x443, 0x442, 0x43E, 0x440, 0x438, 0x430, 0x43B],
             [0x41C, 0x435, 0x442, 0x440, 0x438, 0x43A, 0x438] @ ascii '' ''
               @ [0x443, 0x434, 0x435, 0x440, 0x436, 0x430, 0x43D, 0x438, 0x44F] ],
         tech = ascii ''Game Engine + JS/TS'',
         screens = [ascii ''/screens/game1.png'', ascii ''/screens/game2.gif''] \<rparr>
     else if pid = ascii ''etl'' then
       \<lparr> title = ascii ''ETL'' @ [0x2011, 0x43F, 0x430, 0x439, 0x43F, 0x43B, 0x430, 0x439, 0x43D]
             @ ascii '' '' @ [0x434, 0x430, 0x43D, 0x43D, 0x44B, 0x445],
         bullets =
           [ [0x41F, 0x430, 0x440, 0x441, 0x438, 0x43D, 0x433] @ ascii '' CSV/HTTP'',
             [0x41E, 0x447, 0x438, 0x441, 0x442, 0x43A, 0x430] @ ascii '' pandas'',
             [0x412, 0x438, 0x442, 0x440, 0x438, 0x43D, 0x430] @ ascii '' SQLite/Parquet'',
             [0x414, 0x430, 0x448, 0x431, 0x43E, 0x440, 0x434, 0x44B] @ ascii '' Power BI'' ],
         tech = ascii ''Python (pandas, requests)'',
         screens = [ascii ''/screens/etl1.png''] \<rparr>
     else
       \<lparr> title = [0x41F, 0x440, 0x43E, 0x435, 0x43A, 0x442],
         bullets = [ [0x41E, 0x43F, 0x438, 0x441, 0x430, 0x43D, 0x438, 0x435] @ ascii '' ''
                       @ [0x441, 0x43A, 0x43E, 0x440, 0x43E] ],
         tech = [],
         screens = [] \<rparr>)"

text \<open>
  The placeholder as the specification words it (English text), kept apart from what the
  \<open>default\<close> branch of the source returns.
\<close>

definition spec_placeholder :: ProjectContent where
  "spec_placeholder =
     \<lparr> title = ascii ''Project'', bullets = [ascii ''Description coming soon''],
       tech = [], screens = [] \<rparr>"

text \<open>The value of the \<open>default\<close> branch of the source.\<close>

definition default_content :: ProjectContent where
  "default_content =
     \<lparr> title = [0x41F, 0x440, 0x43E, 0x435, 0x43A, 0x442],
       bullets = [ [0x41E, 0x43F, 0x438, 0x441, 0x430, 0x43D, 0x438, 0x435] @ ascii '' ''
                     @ [0x441, 0x43A, 0x43E, 0x440, 0x43E] ],
       tech = [],
       screens = [] \<rparr>"

section \<open>Numbers\<close>

text \<open>
  A JavaScript number is an IEEE-754 double. A finite double is modelled by the real number
  it denotes, and an arithmetic operation by the exact operation followed by \<open>fl\<close>, the
  rounding to the nearest double with ties to the even significand. \<open>expo x\<close> is the
  exponent of the last place of the doubles around \<open>x\<close>: the \<open>e\<close> with
  \<open>2 ^ 52 \<le> \<bar>x\<bar> / 2 ^ e < 2 ^ 53\<close>, and \<open>- 1074\<close> in the subnormal range. Overflow to
  infinity and NaN are not modelled: no operand of the handlers below comes near them.
  The millisecond counts of \<open>Date.now()\<close> and the ids computed from them are integers far
  below \<open>2 ^ 53\<close>, where double arithmetic is exact; they are modelled as integers.
\<close>

function exp_up :: "real \<Rightarrow> int \<Rightarrow> int" where
  "exp_up y e = (if 2 ^ 53 \<le> y then exp_up (y / 2) (e + 1) else e)"
  by pat_completeness auto
termination
proof (relation "measure (\<lambda>(y, e). nat \<lceil>y\<rceil>)")
  fix y :: real and e :: int
  assume big: "2 ^ 53 \<le> y"
  then have "\<lceil>y / 2\<rceil> < \<lceil>y\<rceil>"
    by (simp add: ceiling_less_iff) linarith
  moreover have "0 < \<lceil>y\<rceil>"
    using big by (simp add: ceiling_less_iff less_ceiling_iff)
  ultimately show "((y / 2, e + 1), (y, e)) \<in> measure (\<lambda>(y, e). nat \<lceil>y\<rceil>)"
    by simp
qed simp

function exp_down :: "real \<Rightarrow> int \<Rightarrow> int" where
  "exp_down y e = (if y < 2 ^ 52 \<and> - 1074 < e then exp_down (y * 2) (e - 1) else e)"
  by pat_completeness auto
termination
  by (relation "measure (\<lambda>(y, e). nat (e + 1074))") auto

declare exp_up.simps [simp del] exp_down.simps [simp del]

definition expo :: "real \<Rightarrow> int" where
  "expo x = (if 2 ^ 53 \<le> \<bar>x\<bar> then exp_up \<bar>x\<bar> 0 else exp_down \<bar>x\<bar> 0)"

definition round_even :: "real \<Rightarrow> int" where
  "round_even y =
     (let f = \<lfloor>y\<rfloor>; d = y - of_int f
      in if d < 1 / 2 then f else if 1 / 2 < d then f + 1 else if even f then f else f + 1)"

definition fl :: "real \<Rightarrow> real" where
  "fl x = (if x = 0 then 0
           else let s = 2 powi expo x in of_int (round_even (x / s)) * s)"

definition fadd :: "real \<Rightarrow> real \<Rightarrow> real" where
  "fadd x y = fl (x + y)"

definition fsub :: "real \<Rightarrow> real \<Rightarrow> real" where
  "fsub x y = fl (x - y)"

definition fmul :: "real \<Rightarrow> real \<Rightarrow> real" where
  "fmul x y = fl (x * y)"

definition fdiv :: "real \<Rightarrow> real \<Rightarrow> real" where
  "fdiv x y = fl (x / y)"

text \<open>\<open>Math.PI\<close>: the double nearest to \<open>pi\<close>, \<open>0x400921FB54442D18\<close>.\<close>

definition Math_PI :: real where
  "Math_PI = 884279719003555 / 2 ^ 48"

section \<open>The custom cursor (\<open>FancyCursor\<close>)\<close>

record particle =
  p_id :: int
  p_x :: real
  p_y :: real
  p_angle :: real
  p_dist :: real

text \<open>
  The four \<open>useState\<close> cells of \<open>FancyCursor\<close>, and the callbacks handed to
  \<open>setTimeout\<close> that have not run yet: each is kept as its delay in milliseconds and the
  \<open>created\<close> array its closure captured.
\<close>

record cursor_state =
  pos :: "real \<times> real"
  down :: bool
  isDark :: bool
  particles :: "particle list"
  timeouts :: "(nat \<times> particle list) list"

definition initial_cursor :: cursor_state where
  "initial_cursor =
     \<lparr> pos = (0, 0), down = False, isDark = False, particles = [], timeouts = [] \<rparr>"

subsection \<open>Dark background detection\<close>

text \<open>
  A DOM element as \<open>isDarkBg\<close> sees it: the value of its class list (absent when the node
  has no \<open>classList\<close>) and its parent element (\<open>null\<close> at the root).
\<close>

datatype element = Element (classList_value: "jsstring option") (parentElement: "element option")

text \<open>\<open>n.classList?.value || ""\<close>\<close>

definition cls_of :: "element \<Rightarrow> jsstring" where
  "cls_of n = (case classList_value n of None \<Rightarrow> [] | Some v \<Rightarrow> (if v = [] then [] else v))"

fun isDarkBg :: "element option \<Rightarrow> bool" where
  "isDarkBg None = False"
| "isDarkBg (Some (Element cv par)) =
     (let cls = cls_of (Element cv par) in
        if js_includes cls (ascii ''bg-black'') \<or> js_includes cls (ascii ''text-white'')
           \<or> js_includes cls (ascii ''bg-neutral-900'')
        then True
        else isDarkBg par)"

text \<open>
  The words of the specification: an element carries a dark-surface marker when its class
  string contains one of the three marker substrings, and the ancestor chain of an element
  is the element followed by its parents up to the root.
\<close>

definition dark_marker :: "element \<Rightarrow> bool" where
  "dark_marker n \<longleftrightarrow>
     js_includes (cls_of n) (ascii ''bg-black'') \<or> js_includes (cls_of n) (ascii ''text-white'')
     \<or> js_includes (cls_of n) (ascii ''bg-neutral-900'')"

fun ancestor_chain :: "element option \<Rightarrow> element list" where
  "ancestor_chain None = []"
| "ancestor_chain (Some (Element cv par)) = Element cv par # ancestor_chain par"

subsection \<open>Pointer handlers\<close>

text \<open>
  \<open>mm\<close>: the \<open>mousemove\<close> listener. \<open>elementFromPoint\<close> stands for
  \<open>document.elementFromPoint\<close> at the time of the event.
\<close>

definition mm :: "(real \<Rightarrow> real \<Rightarrow> element option) \<Rightarrow> real \<Rightarrow> real \<Rightarrow> cursor_state \<Rightarrow> cursor_state" where
  "mm elementFromPoint clientX clientY s =
     (let s1 = s\<lparr>pos := (clientX, clientY)\<rparr>;
          el = elementFromPoint clientX clientY
      in s1\<lparr>isDark := isDarkBg el\<rparr>)"

definition md :: "cursor_state \<Rightarrow> cursor_state" where
  "md s = s\<lparr>down := True\<rparr>"

definition mu :: "cursor_state \<Rightarrow> cursor_state" where
  "mu s = s\<lparr>down := False\<rparr>"

subsection \<open>Click particles\<close>

text \<open>
  The \<open>for\<close> loop of \<open>handleClick\<close>. \<open>rnd k\<close> is the result of the \<open>k\<close>-th call of
  \<open>Math.random()\<close> in this run of the handler (two calls per iteration, the angle first),
  \<open>clock i\<close> the result of the call of \<open>Date.now()\<close> in iteration \<open>i\<close>. The literal
  \<open>0.4\<close> denotes the double nearest to it, \<open>fl 0.4\<close>; the other literals are doubles.
\<close>

function handleClick_loop ::
  "(nat \<Rightarrow> real) \<Rightarrow> (nat \<Rightarrow> int) \<Rightarrow> real \<Rightarrow> real \<Rightarrow> nat \<Rightarrow> nat \<Rightarrow> particle list \<Rightarrow> particle list"
where
  "handleClick_loop rnd clock clientX clientY count i created =
     (if i < count then
        let angle = fadd (fdiv (fmul (fmul Math_PI 2) (real i)) (real count))
                         (fmul (fsub (rnd (2 * i)) 0.5) (fl 0.4));
            dist = fadd 36 (fmul (rnd (2 * i + 1)) 28)
        in handleClick_loop rnd clock clientX clientY count (i + 1)
             (created @ [\<lparr> p_id = clock i + int i, p_x = clientX, p_y = clientY,
                            p_angle = angle, p_dist = dist \<rparr>])
      else created)"
  by pat_completeness auto
termination
  by (relation "measure (\<lambda>(rnd, clock, clientX, clientY, count, i, created). count - i)") auto

definition handleClick_created ::
  "(nat \<Rightarrow> real) \<Rightarrow> (nat \<Rightarrow> int) \<Rightarrow> real \<Rightarrow> real \<Rightarrow> particle list" where
  "handleClick_created rnd clock clientX clientY =
     (let count = 10 in handleClick_loop rnd clock clientX clientY count 0 [])"

text \<open>
  \<open>handleClick\<close>: appends the new particles and registers the removal callback with a
  delay of 750 ms.
\<close>

definition handleClick ::
  "(nat \<Rightarrow> real) \<Rightarrow> (nat \<Rightarrow> int) \<Rightarrow> real \<Rightarrow> real \<Rightarrow> cursor_state \<Rightarrow> cursor_state" where
  "handleClick rnd clock clientX clientY s =
     (let created = handleClick_created rnd clock clientX clientY;
          s1 = s\<lparr>particles := particles s @ created\<rparr>
      in s1\<lparr>timeouts := timeouts s1 @ [(750, created)]\<rparr>)"

text \<open>
  The callback of \<open>setTimeout\<close>:
  \<open>setParticles((p) => p.filter((pt) => !created.some((c) => c.id === pt.id)))\<close>.
\<close>

definition remove_created :: "particle list \<Rightarrow> cursor_state \<Rightarrow> cursor_state" where
  "remove_created created s =
     s\<lparr>particles := filter (\<lambda>pt. \<not> list_ex (\<lambda>c. p_id c = p_id pt) created) (particles s)\<rparr>"

text \<open>The \<open>k\<close>-th pending timer fires: its callback runs and it is no longer pending.\<close>

definition fire_timeout :: "nat \<Rightarrow> cursor_state \<Rightarrow> cursor_state" where
  "fire_timeout k s =
     (if k < length (timeouts s) then
        remove_created (snd (timeouts s ! k))
          (s\<lparr>timeouts := take k (timeouts s) @ drop (Suc k) (timeouts s)\<rparr>)
      else s)"

section \<open>The router (\<open>Portfolio\<close>)\<close>

datatype page = PageHome | PageProject

text \<open>\<open>{ page: "home" | "project"; id?: string }\<close>\<close>

record route =
  page :: page
  route_id :: "jsstring option"

definition initial_route :: route where
  "initial_route = \<lparr> page = PageHome, route_id = None \<rparr>"

text \<open>\<open>onOpen={(id) => setRoute({ page: "project", id })}\<close>\<close>

definition onOpen :: "jsstring \<Rightarrow> route \<Rightarrow> route" where
  "onOpen pid r = \<lparr> page = PageProject, route_id = Some pid \<rparr>"

text \<open>\<open>onBack={() => setRoute({ page: "home" })}\<close>\<close>

definition onBack :: "route \<Rightarrow> route" where
  "onBack r = \<lparr> page = PageHome, route_id = None \<rparr>"

text \<open>
  What \<open>Portfolio\<close> renders below the cursor. \<open>route.id!\<close> is checked by the compiler
  only; an undefined \<open>id\<close> reaching \<open>ProjectPage\<close> is the error \<open>UndefinedId\<close> here.
\<close>

datatype view = HomeView | ProjectPageView jsstring

datatype render_error = UndefinedId

definition render :: "route \<Rightarrow> render_error + view" where
  "render r =
     (if page r = PageHome then Inr HomeView
      else (case route_id r of None \<Rightarrow> Inl UndefinedId | Some pid \<Rightarrow> Inr (ProjectPageView pid)))"

text \<open>
  The invariant behind the non-null assertion \<open>route.id!\<close>: on a project page the
  \<open>id\<close> is defined.
\<close>

definition route_inv :: "route \<Rightarrow> bool" where
  "route_inv r \<longleftrightarrow> (page r = PageProject \<longrightarrow> route_id r \<noteq> None)"

record project =
  proj_id :: jsstring
  proj_title :: jsstring
  proj_desc :: jsstring
  proj_tag :: jsstring

definition projects :: "project list" where
  "projects =
    [ \<lparr> proj_id = ascii ''crm'',
        proj_title = [0x41C, 0x438, 0x43D, 0x438, 0x2011] @ ascii ''CRM '' @ [0x434, 0x43B, 0x44F]
          @ ascii '' '' @ [0x43E, 0x442, 0x434, 0x435, 0x43B, 0x430] @ ascii '' ''
          @ [0x43F, 0x440, 0x43E, 0x434, 0x430, 0x436],
        proj_desc = [0x421, 0x43F, 0x438, 0x441, 0x43E, 0x43A] @ ascii '' ''
          @ [0x441, 0x434, 0x435, 0x43B, 0x43E, 0x43A] @ ascii '', ''
          @ [0x441, 0x442, 0x430, 0x442, 0x443, 0x441, 0x44B] @ ascii '', ''
          @ [0x432, 0x43E, 0x440, 0x43E, 0x43D, 0x43A, 0x430] @ ascii '', ''
          @ [0x437, 0x430, 0x434, 0x430, 0x447, 0x438] @ ascii ''.'',
        proj_tag = ascii ''CRM'' \<rparr>,
      \<lparr> proj_id = ascii ''game'',
        proj_title = [0x418, 0x433, 0x440, 0x43E, 0x432, 0x43E, 0x439] @ ascii '' ''
          @ [0x43F, 0x440, 0x43E, 0x442, 0x43E, 0x442, 0x438, 0x43F] @ ascii '' (2D)'',
        proj_desc = [0x42D, 0x43A, 0x43E, 0x43D, 0x43E, 0x43C, 0x438, 0x43A, 0x430] @ ascii '', ''
          @ [0x431, 0x430, 0x43B, 0x430, 0x43D, 0x441] @ ascii '', ''
          @ [0x441, 0x43E, 0x445, 0x440, 0x430, 0x43D, 0x435, 0x43D, 0x438, 0x44F] @ ascii '', ''
          @ [0x431, 0x430, 0x437, 0x43E, 0x432, 0x430, 0x44F] @ ascii '' ''
          @ [0x418, 0x418, 0x2011, 0x43B, 0x43E, 0x433, 0x438, 0x43A, 0x430] @ ascii ''.'',
        proj_tag = ascii ''Game'' \<rparr>,
      \<lparr> proj_id = ascii ''etl'',
        proj_title = ascii ''ETL'' @ [0x2011, 0x43F, 0x430, 0x439, 0x43F, 0x43B, 0x430, 0x439, 0x43D]
          @ ascii '' '' @ [0x434, 0x430, 0x43D, 0x43D, 0x44B, 0x445],
        proj_desc = [0x41F, 0x430, 0x440, 0x441, 0x438, 0x43D, 0x433] @ ascii '' '' @ [0x2192]
          @ ascii '' '' @ [0x43E, 0x447, 0x438, 0x441, 0x442, 0x43A, 0x430] @ ascii '' ''
          @ [0x2192] @ ascii '' '' @ [0x432, 0x438, 0x442, 0x440, 0x438, 0x43D, 0x430] @ ascii ''; ''
          @ [0x43E, 0x442, 0x447, 0x451, 0x442, 0x43D, 0x43E, 0x441, 0x442, 0x44C] @ ascii '' ''
          @ [0x432] @ ascii '' Power BI.'',
        proj_tag = ascii ''Data'' \<rparr> ]"

subsection \<open>The hero tilt\<close>

text \<open>
  \<open>handleMouseMove\<close> of \<open>Portfolio\<close>: sets the two motion values from the pointer's
  offset to the centre of the hero card's bounding rectangle.
\<close>

record rect =
  left :: real
  top :: real
  width :: real
  height :: real

definition handleMouseMove :: "real \<Rightarrow> real \<Rightarrow> rect \<Rightarrow> real \<times> real" where
  "handleMouseMove clientX clientY r =
     (let dx = fsub clientX (fadd (left r) (fdiv (width r) 2));
          dy = fsub clientY (fadd (top r) (fdiv (height r) 2))
      in (max (-30) (min 30 (fdiv dx 6)), max (-30) (min 30 (fdiv dy 6))))"

section \<open>The application as a transition system\<close>

text \<open>
  The state of the page is the route of \<open>Portfolio\<close>, its two motion values and the
  state of the one \<open>FancyCursor\<close> it renders. An event is one run of one handler or
  callback of the source. The project cards and the hero card exist on the home page
  only, the back button on a project page only; an event on an element that is not
  rendered leaves the state as it is.
\<close>

record app =
  app_route :: route
  tilt :: "real \<times> real"
  cursor :: cursor_state

definition initial_app :: app where
  "initial_app = \<lparr> app_route = initial_route, tilt = (0, 0), cursor = initial_cursor \<rparr>"

datatype event =
    MouseMove real real "real \<Rightarrow> real \<Rightarrow> element option"
  | MouseDown
  | MouseUp
  | Click real real "nat \<Rightarrow> real" "nat \<Rightarrow> int"
  | Timeout nat
  | HeroMouseMove real real rect
  | CardClick nat
  | BackClick

fun step :: "event \<Rightarrow> app \<Rightarrow> app" where
  "step (MouseMove clientX clientY elementFromPoint) a =
     a\<lparr>cursor := mm elementFromPoint clientX clientY (cursor a)\<rparr>"
| "step MouseDown a = a\<lparr>cursor := md (cursor a)\<rparr>"
| "step MouseUp a = a\<lparr>cursor := mu (cursor a)\<rparr>"
| "step (Click clientX clientY rnd clock) a =
     a\<lparr>cursor := handleClick rnd clock clientX clientY (cursor a)\<rparr>"
| "step (Timeout k) a = a\<lparr>cursor := fire_timeout k (cursor a)\<rparr>"
| "step (HeroMouseMove clientX clientY r) a =
     (if page (app_route a) = PageHome then a\<lparr>tilt := handleMouseMove clientX clientY r\<rparr> else a)"
| "step (CardClick k) a =
     (if page (app_route a) = PageHome \<and> k < length projects
      then a\<lparr>app_route := onOpen (proj_id (projects ! k)) (app_route a)\<rparr> else a)"
| "step BackClick a =
     (if page (app_route a) = PageProject then a\<lparr>app_route := onBack (app_route a)\<rparr> else a)"

fun run :: "event list \<Rightarrow> app \<Rightarrow> app" where
  "run [] a = a"
| "run (e # es) a = run es (step e a)"

text \<open>The events that select a project card or press the back button.\<close>

fun navigation :: "event \<Rightarrow> bool" where
  "navigation (CardClick k) = True"
| "navigation BackClick = True"
| "navigation e = False"

fun is_MouseMove :: "event \<Rightarrow> bool" where
  "is_MouseMove (MouseMove clientX clientY elementFromPoint) = True"
| "is_MouseMove e = False"

section \<open>Rounding lemmas\<close>

lemmas fl_eval = fl_def expo_def round_even_def Let_def exp_up.simps exp_down.simps

lemma two_powi_Suc: "(2::real) powi (n + 1) = 2 powi n * 2"
  by (simp add: power_int_add)

lemma exp_down_ge: "- 1074 \<le> e \<Longrightarrow> - 1074 \<le> exp_down y e"
proof (induction y e rule: exp_down.induct)
  case (1 y e)
  then show ?case
    by (subst exp_down.simps) auto
qed

lemma exp_down_scaled: "- 1074 < exp_down y e \<Longrightarrow> 2 ^ 52 \<le> y * 2 powi (e - exp_down y e)"
proof (induction y e rule: exp_down.induct)
  case (1 y e)
  show ?case
  proof (cases "y < 2 ^ 52 \<and> - 1074 < e")
    case True
    have eq: "exp_down y e = exp_down (y * 2) (e - 1)"
      by (subst exp_down.simps) (simp only: True simp_thms if_True)
    have pre: "- 1074 < exp_down (y * 2) (e - 1)"
      using "1.prems" by (simp only: eq)
    have ih: "2 ^ 52 \<le> y * 2 * 2 powi (e - 1 - exp_down (y * 2) (e - 1))"
      using "1.IH" [OF True pre] .
    have "e - exp_down (y * 2) (e - 1) = (e - 1 - exp_down (y * 2) (e - 1)) + 1"
      by simp
    then have P: "(2::real) powi (e - exp_down (y * 2) (e - 1)) = 2 powi (e - 1 - exp_down (y * 2) (e - 1)) * 2"
      by (simp only: two_powi_Suc)
    have "y * 2 * 2 powi (e - 1 - exp_down (y * 2) (e - 1)) = y * (2 powi (e - 1 - exp_down (y * 2) (e - 1)) * 2)"
      by simp
    also have "\<dots> = y * 2 powi (e - exp_down (y * 2) (e - 1))"
      by (simp only: P)
    finally show ?thesis
      using ih by (simp only: eq)
  next
    case False
    have eq: "exp_down y e = e"
      by (subst exp_down.simps) (simp only: False simp_thms if_False)
    with False "1.prems" show ?thesis
      by simp
  qed
qed

lemma exp_up_scaled: "2 ^ 52 \<le> y \<Longrightarrow> 2 ^ 52 \<le> y * 2 powi (e - exp_up y e) \<and> e \<le> exp_up y e"
proof (induction y e rule: exp_up.induct)
  case (1 y e)
  show ?case
  proof (cases "2 ^ 53 \<le> y")
    case True
    have eq: "exp_up y e = exp_up (y / 2) (e + 1)"
      by (subst exp_up.simps) (simp only: True simp_thms if_True)
    have half: "(2::real) ^ 52 \<le> y / 2"
      using True by simp
    have ih: "2 ^ 52 \<le> y / 2 * 2 powi (e + 1 - exp_up (y / 2) (e + 1)) \<and> e + 1 \<le> exp_up (y / 2) (e + 1)"
      using "1.IH" [OF True half] .
    have "e + 1 - exp_up (y / 2) (e + 1) = (e - exp_up (y / 2) (e + 1)) + 1"
      by simp
    then have P: "(2::real) powi (e + 1 - exp_up (y / 2) (e + 1)) = 2 powi (e - exp_up (y / 2) (e + 1)) * 2"
      by (simp only: two_powi_Suc)
    have "2 ^ 52 \<le> y / 2 * (2 powi (e - exp_up (y / 2) (e + 1)) * 2)"
      using ih by (simp only: P)
    also have "\<dots> = y * 2 powi (e - exp_up (y / 2) (e + 1))"
      by simp
    finally have "2 ^ 52 \<le> y * 2 powi (e - exp_up y e)"
      by (simp only: eq)
    moreover have "e \<le> exp_up y e"
      using ih by (simp only: eq) simp
    ultimately show ?thesis
      by blast
  next
    case False
    have eq: "exp_up y e = e"
      by (subst exp_up.simps) (simp only: False simp_thms if_False)
    with "1.prems" show ?thesis
      by simp
  qed
qed

lemma expo_ge: "- 1074 \<le> expo x"
proof (cases "2 ^ 53 \<le> \<bar>x\<bar>")
  case True
  then have "(2::real) ^ 52 \<le> \<bar>x\<bar>" by simp
  from exp_up_scaled [OF this, of 0] True show ?thesis
    by (simp add: expo_def)
next
  case False
  then show ?thesis
    by (simp add: expo_def exp_down_ge)
qed

lemma expo_normal:
  assumes "- 1074 < expo x"
  shows "2 ^ 52 \<le> \<bar>x\<bar> / 2 powi expo x"
proof (cases "2 ^ 53 \<le> \<bar>x\<bar>")
  case True
  then have "(2::real) ^ 52 \<le> \<bar>x\<bar>" by simp
  from exp_up_scaled [OF this, of 0] True show ?thesis
    by (simp add: expo_def power_int_minus field_simps)
next
  case False
  with assms exp_down_scaled [of "\<bar>x\<bar>" 0] show ?thesis
    by (simp add: expo_def power_int_minus field_simps)
qed

lemma round_even_floor: "\<lfloor>y\<rfloor> \<le> round_even y"
  by (simp add: round_even_def Let_def)

lemma round_even_ceiling: "round_even y \<le> \<lceil>y\<rceil>"
proof -
  have "\<lfloor>y\<rfloor> \<le> \<lceil>y\<rceil>"
    by (simp add: floor_le_ceiling)
  moreover have "\<lfloor>y\<rfloor> + 1 \<le> \<lceil>y\<rceil>" if "0 < y - of_int \<lfloor>y\<rfloor>"
    using that by (simp add: less_ceiling_iff add1_zle_eq)
  ultimately show ?thesis
    by (auto simp: round_even_def Let_def)
qed

text \<open>A number with a 53-bit significand, scaled to the grid of \<open>x\<close>.\<close>

lemma grid_cases:
  assumes m: "\<bar>m\<bar> < 2 ^ 53" and k: "- 1074 \<le> k" and x: "x \<noteq> 0"
  shows "(\<exists>j. real_of_int m * 2 powi k / 2 powi expo x = of_int j) \<or>
         (\<bar>real_of_int m * 2 powi k / 2 powi expo x\<bar> < 2 ^ 52 \<and> 2 ^ 52 \<le> \<bar>x / 2 powi expo x\<bar>)"
proof (cases "expo x \<le> k")
  case True
  have "(2::real) powi k / 2 powi expo x = 2 powi (k - expo x)"
    by (simp add: power_int_diff)
  also have "\<dots> = 2 ^ nat (k - expo x)"
    using True by (simp add: power_int_def)
  finally have q: "(2::real) powi k / 2 powi expo x = 2 ^ nat (k - expo x)" .
  have "real_of_int m * 2 powi k / 2 powi expo x = real_of_int m * (2 powi k / 2 powi expo x)"
    by simp
  also have "\<dots> = of_int (m * 2 ^ nat (k - expo x))"
    by (simp only: q) simp
  finally have "real_of_int m * 2 powi k / 2 powi expo x = of_int (m * 2 ^ nat (k - expo x))" .
  then show ?thesis by blast
next
  case False
  then have lt: "k - expo x \<le> - 1" by simp
  have "(2::real) powi k / 2 powi expo x = 2 powi (k - expo x)"
    by (simp add: power_int_diff)
  also have "\<dots> \<le> 2 powi (- 1)"
    using lt by (intro power_int_increasing) simp_all
  finally have small: "(2::real) powi k / 2 powi expo x \<le> 1 / 2"
    by (simp add: power_int_minus)
  have pos: "0 < (2::real) powi k / 2 powi expo x"
    by simp
  have "\<bar>real_of_int m * 2 powi k / 2 powi expo x\<bar> = \<bar>of_int m\<bar> * ((2::real) powi k / 2 powi expo x)"
    by (simp add: abs_mult)
  also have "\<dots> \<le> \<bar>of_int m\<bar> * (1 / 2)"
    using small by (intro mult_left_mono) simp_all
  also have "\<dots> < 2 ^ 53 * (1 / 2)"
  proof -
    have "\<bar>real_of_int m\<bar> < 2 ^ 53"
      using m by (metis of_int_abs of_int_less_numeral_power_cancel_iff)
    then show ?thesis by simp
  qed
  finally have a: "\<bar>real_of_int m * 2 powi k / 2 powi expo x\<bar> < 2 ^ 52"
    by simp
  have "- 1074 < expo x"
    using False k by simp
  then have "2 ^ 52 \<le> \<bar>x\<bar> / 2 powi expo x"
    by (rule expo_normal)
  then have "2 ^ 52 \<le> \<bar>x / 2 powi expo x\<bar>"
    by (simp add: abs_divide)
  with a show ?thesis by blast
qed

lemma fl_lower:
  assumes le: "of_int m * 2 powi k \<le> x" and m: "\<bar>m\<bar> < 2 ^ 53" and k: "- 1074 \<le> k"
  shows "of_int m * 2 powi k \<le> fl x"
proof (cases "x = 0")
  case True
  with le show ?thesis by (simp add: fl_def)
next
  case False
  define s :: real where "s = 2 powi expo x"
  have s: "0 < s" by (simp add: s_def)
  define a where "a = of_int m * 2 powi k / s"
  define y where "y = x / s"
  have ay: "a \<le> y"
    using le s by (simp add: a_def y_def divide_right_mono)
  have fl: "fl x = of_int (round_even y) * s"
    using False by (simp add: fl_def s_def y_def Let_def)
  have "a \<le> of_int (round_even y)"
    using grid_cases [OF m k False]
  proof
    assume "\<exists>j. real_of_int m * 2 powi k / 2 powi expo x = of_int j"
    then obtain j where j: "a = of_int j" by (auto simp: a_def s_def)
    with ay have "j \<le> \<lfloor>y\<rfloor>" by (simp add: le_floor_iff)
    with round_even_floor [of y] have "j \<le> round_even y" by simp
    with j show ?thesis by simp
  next
    assume "\<bar>real_of_int m * 2 powi k / 2 powi expo x\<bar> < 2 ^ 52 \<and> 2 ^ 52 \<le> \<bar>x / 2 powi expo x\<bar>"
    then have a: "\<bar>a\<bar> < 2 ^ 52" and yb: "2 ^ 52 \<le> \<bar>y\<bar>"
      by (simp_all add: a_def y_def s_def)
    from a yb ay have "4503599627370496 \<le> y" by simp
    then have "4503599627370496 \<le> \<lfloor>y\<rfloor>"
      by (simp add: le_floor_iff)
    then have "4503599627370496 \<le> round_even y"
      by (rule order_trans [OF _ round_even_floor])
    then have "real_of_int 4503599627370496 \<le> of_int (round_even y)"
      by (simp only: of_int_le_iff)
    with a show ?thesis by simp
  qed
  then have "a * s \<le> of_int (round_even y) * s"
    using s by (simp add: mult_right_mono)
  then show ?thesis
    using s by (simp add: fl a_def)
qed

lemma fl_upper:
  assumes le: "x \<le> of_int m * 2 powi k" and m: "\<bar>m\<bar> < 2 ^ 53" and k: "- 1074 \<le> k"
  shows "fl x \<le> of_int m * 2 powi k"
proof (cases "x = 0")
  case True
  with le show ?thesis by (simp add: fl_def)
next
  case False
  define s :: real where "s = 2 powi expo x"
  have s: "0 < s" by (simp add: s_def)
  define a where "a = of_int m * 2 powi k / s"
  define y where "y = x / s"
  have ay: "y \<le> a"
    using le s by (simp add: a_def y_def divide_right_mono)
  have fl: "fl x = of_int (round_even y) * s"
    using False by (simp add: fl_def s_def y_def Let_def)
  have "of_int (round_even y) \<le> a"
    using grid_cases [OF m k False]
  proof
    assume "\<exists>j. real_of_int m * 2 powi k / 2 powi expo x = of_int j"
    then obtain j where j: "a = of_int j" by (auto simp: a_def s_def)
    with ay have "\<lceil>y\<rceil> \<le> j" by (simp add: ceiling_le_iff)
    with round_even_ceiling [of y] have "round_even y \<le> j" by simp
    with j show ?thesis by simp
  next
    assume "\<bar>real_of_int m * 2 powi k / 2 powi expo x\<bar> < 2 ^ 52 \<and> 2 ^ 52 \<le> \<bar>x / 2 powi expo x\<bar>"
    then have a: "\<bar>a\<bar> < 2 ^ 52" and yb: "2 ^ 52 \<le> \<bar>y\<bar>"
      by (simp_all add: a_def y_def s_def)
    from a yb ay have "y \<le> - 4503599627370496" by simp
    then have "\<lceil>y\<rceil> \<le> - 4503599627370496"
      by (simp add: ceiling_le_iff)
    then have "round_even y \<le> - 4503599627370496"
      by (rule order_trans [OF round_even_ceiling])
    then have "of_int (round_even y) \<le> real_of_int (- 4503599627370496)"
      by (simp only: of_int_le_iff)
    with a show ?thesis by simp
  qed
  then have "of_int (round_even y) * s \<le> a * s"
    using s by (simp add: mult_right_mono)
  then show ?thesis
    using s by (simp add: fl a_def)
qed

lemma fl_lower_val:
  assumes "a = real_of_int m * 2 powi k" "\<bar>m\<bar> < 2 ^ 53" "- 1074 \<le> k" "a \<le> x"
  shows "a \<le> fl x"
  using fl_lower [of m k x] assms by simp

lemma fl_upper_val:
  assumes "b = real_of_int m * 2 powi k" "\<bar>m\<bar> < 2 ^ 53" "- 1074 \<le> k" "x \<le> b"
  shows "fl x \<le> b"
  using fl_upper [of x m k] assms by simp

lemma fl_literal: "fl 0.4 = 3602879701896397 / 2 ^ 53"
  by (simp add: fl_eval)

text \<open>The jitter \<open>(Math.random() - 0.5) * 0.4\<close> stays within the double \<open>0.2\<close>.\<close>

lemma jitter_bounds:
  assumes "0 \<le> r" "r < 1"
  shows "- (3602879701896397 / 2 ^ 54) \<le> fmul (fsub r 0.5) (fl 0.4)"
    and "fmul (fsub r 0.5) (fl 0.4) \<le> 3602879701896397 / 2 ^ 54"
proof -
  let ?u = "fsub r 0.5"
  have lo: "- (1 / 2) \<le> ?u"
    unfolding fsub_def
    by (rule fl_lower_val [where m = "- 1" and k = "- 1"]) (use assms in \<open>simp_all add: power_int_minus\<close>)
  have hi: "?u \<le> 1 / 2"
    unfolding fsub_def
    by (rule fl_upper_val [where m = 1 and k = "- 1"]) (use assms in \<open>simp_all add: power_int_minus\<close>)
  show "- (3602879701896397 / 2 ^ 54) \<le> fmul ?u (fl 0.4)"
    unfolding fmul_def fl_literal
    by (rule fl_lower_val [where m = "- 3602879701896397" and k = "- 54"])
      (use lo in \<open>simp_all add: power_int_minus\<close>)
  show "fmul ?u (fl 0.4) \<le> 3602879701896397 / 2 ^ 54"
    unfolding fmul_def fl_literal
    by (rule fl_upper_val [where m = 3602879701896397 and k = "- 54"])
      (use hi in \<open>simp_all add: power_int_minus\<close>)
qed

text \<open>The distance \<open>36 + Math.random() * 28\<close>.\<close>

lemma dist_bounds:
  assumes "0 \<le> r" "r < 1"
  shows "36 \<le> fadd 36 (fmul r 28)" and "fadd 36 (fmul r 28) \<le> 64"
proof -
  have lo: "0 \<le> fmul r 28"
    unfolding fmul_def
    by (rule fl_lower_val [where m = 0 and k = 0]) (use assms in simp_all)
  have hi: "fmul r 28 \<le> 28"
    unfolding fmul_def
    by (rule fl_upper_val [where m = 28 and k = 0]) (use assms in simp_all)
  show "36 \<le> fadd 36 (fmul r 28)"
    unfolding fadd_def
    by (rule fl_lower_val [where m = 36 and k = 0]) (use lo in simp_all)
  show "fadd 36 (fmul r 28) \<le> 64"
    unfolding fadd_def
    by (rule fl_upper_val [where m = 64 and k = 0]) (use hi in simp_all)
qed

section \<open>Bounds of \<open>pi\<close>\<close>

lemma arctan_partial_sums:
  fixes x :: real
  assumes "0 \<le> x" "x \<le> 1"
  shows "(\<Sum>i<2 * n. (- 1) ^ i * (1 / real (i * 2 + 1) * x ^ (i * 2 + 1))) \<le> arctan x"
    and "arctan x \<le> (\<Sum>i<2 * n + 1. (- 1) ^ i * (1 / real (i * 2 + 1) * x ^ (i * 2 + 1)))"
proof -
  let ?a = "\<lambda>i. 1 / real (i * 2 + 1) * x ^ (i * 2 + 1)"
  have abs: "\<bar>x\<bar> \<le> 1" using assms by simp
  have zero: "?a \<longlonglongrightarrow> 0"
    using abs by (rule zeroseq_arctan_series)
  have pos: "0 \<le> ?a i" for i
    using assms by simp
  have mono: "?a (Suc i) \<le> ?a i" for i
  proof -
    have "x ^ (Suc i * 2 + 1) \<le> x ^ (i * 2 + 1)"
      using assms by (intro power_decreasing) simp_all
    moreover have "1 / real (Suc i * 2 + 1) \<le> 1 / real (i * 2 + 1)"
      by (simp add: field_simps)
    ultimately show ?thesis
      using assms by (intro mult_mono) simp_all
  qed
  have series: "arctan x = (\<Sum>i. (- 1) ^ i * ?a i)"
    using abs by (rule arctan_series)
  show "(\<Sum>i<2 * n. (- 1) ^ i * ?a i) \<le> arctan x"
    unfolding series by (rule summable_Leibniz'(2) [OF zero pos mono])
  show "arctan x \<le> (\<Sum>i<2 * n + 1. (- 1) ^ i * ?a i)"
    unfolding series by (rule summable_Leibniz'(4) [OF zero pos mono])
qed

lemma pi_bounds: "3.14159265358979323 < pi" "pi < 3.14159265358979324"
proof -
  have l5: "(\<Sum>i<2 * 7. (- 1) ^ i * (1 / real (i * 2 + 1) * (1 / 5) ^ (i * 2 + 1))) \<le> arctan (1 / 5)"
    by (rule arctan_partial_sums) simp_all
  have u5: "arctan (1 / 5) \<le> (\<Sum>i<2 * 7 + 1. (- 1) ^ i * (1 / real (i * 2 + 1) * (1 / 5) ^ (i * 2 + 1)))"
    by (rule arctan_partial_sums) simp_all
  have l239: "(\<Sum>i<2 * 2. (- 1) ^ i * (1 / real (i * 2 + 1) * (1 / 239) ^ (i * 2 + 1))) \<le> arctan (1 / 239)"
    by (rule arctan_partial_sums) simp_all
  have u239: "arctan (1 / 239) \<le> (\<Sum>i<2 * 2 + 1. (- 1) ^ i * (1 / real (i * 2 + 1) * (1 / 239) ^ (i * 2 + 1)))"
    by (rule arctan_partial_sums) simp_all
  have pi4: "pi = 4 * (4 * arctan (1 / 5) - arctan (1 / 239))"
    using machin by simp
  have L5: "295294730178639298589974654 / 1495954267680644989013671875 \<le> arctan (1 / 5)"
    using l5 by (simp add: lessThan_nat_numeral lessThan_Suc power_divide)
  have U5: "arctan (1 / 5) \<le> 214088679379513491477932407733 / 1084566844068467617034912109375"
    using u5 by (simp add: lessThan_nat_numeral lessThan_Suc power_divide)
  have L239: "19569249503065996 / 4677077924340368295 \<le> arctan (1 / 239)"
    using l239 by (simp add: lessThan_nat_numeral lessThan_Suc power_divide)
  have U239: "arctan (1 / 239) \<le> 3353445302593898272583 / 801478104348738532136085"
    using u239 by (simp add: lessThan_nat_numeral lessThan_Suc power_divide)
  show "3.14159265358979323 < pi"
    using L5 U239 unfolding pi4 by simp
  show "pi < 3.14159265358979324"
    using U5 L239 unfolding pi4 by simp
qed

section \<open>The angle of a particle\<close>

text \<open>
  One index of the loop: \<open>B\<close> is the double \<open>(Math.PI * 2 * i) / 10\<close>, and the two doubles
  \<open>m1 * 2 ^ k1\<close> and \<open>m2 * 2 ^ k2\<close> enclose \<open>B - 0.2\<close> and \<open>B + 0.2\<close>.
\<close>

lemma angle_case:
  fixes t :: real
  assumes B: "fdiv (fmul (fmul Math_PI 2) t) 10 = B"
    and lo: "real_of_int m1 * 2 powi k1 \<le> B - 3602879701896397 / 2 ^ 54"
      "\<bar>m1\<bar> < 2 ^ 53" "- 1074 \<le> k1"
    and hi: "B + 3602879701896397 / 2 ^ 54 \<le> real_of_int m2 * 2 powi k2"
      "\<bar>m2\<bar> < 2 ^ 53" "- 1074 \<le> k2"
    and near: "t * (2 * 3.14159265358979324 / 10) - 0.2 - 1 / 10 ^ 15 \<le> real_of_int m1 * 2 powi k1"
      "real_of_int m2 * 2 powi k2 \<le> t * (2 * 3.14159265358979323 / 10) + 0.2 + 1 / 10 ^ 15"
    and t: "0 \<le> t"
    and r: "0 \<le> r \<and> r < 1"
  shows "\<bar>fadd (fdiv (fmul (fmul Math_PI 2) t) 10) (fmul (fsub r 0.5) (fl 0.4)) - t * (2 * pi / 10)\<bar>
           \<le> 0.2 + 1 / 10 ^ 15"
proof -
  let ?j = "fmul (fsub r 0.5) (fl 0.4)"
  have j: "- (3602879701896397 / 2 ^ 54) \<le> ?j" "?j \<le> 3602879701896397 / 2 ^ 54"
    using r jitter_bounds by simp_all
  have "real_of_int m1 * 2 powi k1 \<le> B + ?j"
    using lo(1) j(1) by linarith
  then have low: "real_of_int m1 * 2 powi k1 \<le> fadd B ?j"
    unfolding fadd_def using lo(2,3) by (rule fl_lower)
  have "B + ?j \<le> real_of_int m2 * 2 powi k2"
    using hi(1) j(2) by linarith
  then have high: "fadd B ?j \<le> real_of_int m2 * 2 powi k2"
    unfolding fadd_def using hi(2,3) by (rule fl_upper)
  have up: "t * (2 * pi / 10) \<le> t * (2 * 3.14159265358979324 / 10)"
    using t pi_bounds(2) by (intro mult_left_mono) simp_all
  have down: "t * (2 * 3.14159265358979323 / 10) \<le> t * (2 * pi / 10)"
    using t pi_bounds(1) by (intro mult_left_mono) simp_all
  have "- (0.2 + 1 / 10 ^ 15) \<le> fadd B ?j - t * (2 * pi / 10)"
    using low near(1) up by linarith
  moreover have "fadd B ?j - t * (2 * pi / 10) \<le> 0.2 + 1 / 10 ^ 15"
    using high near(2) down by linarith
  ultimately have "\<bar>fadd B ?j - t * (2 * pi / 10)\<bar> \<le> 0.2 + 1 / 10 ^ 15"
    by (intro abs_leI) linarith+
  then show ?thesis
    by (simp only: B)
qed

lemma angle_bound:
  assumes i: "i < 10" and r: "0 \<le> r \<and> r < 1"
  shows "\<bar>fadd (fdiv (fmul (fmul Math_PI 2) (real i)) 10) (fmul (fsub r 0.5) (fl 0.4))
            - real i * (2 * pi / 10)\<bar> \<le> 0.2 + 1 / 10 ^ 15"
proof -
  from i have "i = 0 \<or> i = 1 \<or> i = 2 \<or> i = 3 \<or> i = 4 \<or> i = 5 \<or> i = 6 \<or> i = 7 \<or> i = 8 \<or> i = 9"
    by arith
  then show ?thesis
  proof (elim disjE)
    assume c0: "i = 0"
    have "\<bar>fadd (fdiv (fmul (fmul Math_PI 2) 0) 10) (fmul (fsub r 0.5) (fl 0.4)) - 0 * (2 * pi / 10)\<bar>
            \<le> 0.2 + 1 / 10 ^ 15"
      by (rule angle_case [where B = "0" and ?m1.0 = "-7205759403792794" and ?k1.0 = "-55"
            and ?m2.0 = "7205759403792794" and ?k2.0 = "-55"])
        (use r in \<open>simp_all add: fl_eval fmul_def fdiv_def Math_PI_def power_int_minus\<close>)
    with c0 show ?thesis
      by simp
  next
    assume c1: "i = 1"
    have "\<bar>fadd (fdiv (fmul (fmul Math_PI 2) 1) 10) (fmul (fsub r 0.5) (fl 0.4)) - 1 * (2 * pi / 10)\<bar>
            \<le> 0.2 + 1 / 10 ^ 15"
      by (rule angle_case [where B = "176855943800711 / 281474976710656" and ?m1.0 = "7715900701349107" and ?k1.0 = "-54"
            and ?m2.0 = "7460830052570951" and ?k2.0 = "-53"])
        (use r in \<open>simp_all add: fl_eval fmul_def fdiv_def Math_PI_def power_int_minus\<close>)
    with c1 show ?thesis
      by simp
  next
    assume c2: "i = 2"
    have "\<bar>fadd (fdiv (fmul (fmul Math_PI 2) 2) 10) (fmul (fsub r 0.5) (fl 0.4)) - 2 * (2 * pi / 10)\<bar>
            \<le> 0.2 + 1 / 10 ^ 15"
      by (rule angle_case [where B = "176855943800711 / 140737488355328" and ?m1.0 = "4758670276148652" and ?k1.0 = "-52"
            and ?m2.0 = "6560110127096852" and ?k2.0 = "-52"])
        (use r in \<open>simp_all add: fl_eval fmul_def fdiv_def Math_PI_def power_int_minus\<close>)
    with c2 show ?thesis
      by simp
  next
    assume c3: "i = 3"
    have "\<bar>fadd (fdiv (fmul (fmul Math_PI 2) 3) 10) (fmul (fsub r 0.5) (fl 0.4)) - 3 * (2 * pi / 10)\<bar>
            \<le> 0.2 + 1 / 10 ^ 15"
      by (rule angle_case [where B = "530567831402133 / 281474976710656" and ?m1.0 = "7588365376960028" and ?k1.0 = "-52"
            and ?m2.0 = "4694902613954114" and ?k2.0 = "-51"])
        (use r in \<open>simp_all add: fl_eval fmul_def fdiv_def Math_PI_def power_int_minus\<close>)
    with c3 show ?thesis
      by simp
  next
    assume c4: "i = 4"
    have "\<bar>fadd (fdiv (fmul (fmul Math_PI 2) 4) 10) (fmul (fsub r 0.5) (fl 0.4)) - 4 * (2 * pi / 10)\<bar>
            \<le> 0.2 + 1 / 10 ^ 15"
      by (rule angle_case [where B = "176855943800711 / 70368744177664" and ?m1.0 = "5209030238885702" and ?k1.0 = "-51"
            and ?m2.0 = "6109750164359802" and ?k2.0 = "-51"])
        (use r in \<open>simp_all add: fl_eval fmul_def fdiv_def Math_PI_def power_int_minus\<close>)
    with c4 show ?thesis
      by simp
  next
    assume c5: "i = 5"
    have "\<bar>fadd (fdiv (fmul (fmul Math_PI 2) 5) 10) (fmul (fsub r 0.5) (fl 0.4)) - 5 * (2 * pi / 10)\<bar>
            \<le> 0.2 + 1 / 10 ^ 15"
      by (rule angle_case [where B = "884279719003555 / 281474976710656" and ?m1.0 = "6623877789291390" and ?k1.0 = "-51"
            and ?m2.0 = "7524597714765490" and ?k2.0 = "-51"])
        (use r in \<open>simp_all add: fl_eval fmul_def fdiv_def Math_PI_def power_int_minus\<close>)
    with c5 show ?thesis
      by simp
  next
    assume c6: "i = 6"
    have "\<bar>fadd (fdiv (fmul (fmul Math_PI 2) 6) 10) (fmul (fsub r 0.5) (fl 0.4)) - 6 * (2 * pi / 10)\<bar>
            \<le> 0.2 + 1 / 10 ^ 15"
      by (rule angle_case [where B = "530567831402133 / 140737488355328" and ?m1.0 = "8038725339697078" and ?k1.0 = "-51"
            and ?m2.0 = "8939445265171178" and ?k2.0 = "-51"])
        (use r in \<open>simp_all add: fl_eval fmul_def fdiv_def Math_PI_def power_int_minus\<close>)
    with c6 show ?thesis
      by simp
  next
    assume c7: "i = 7"
    have "\<bar>fadd (fdiv (fmul (fmul Math_PI 2) 7) 10) (fmul (fsub r 0.5) (fl 0.4)) - 7 * (2 * pi / 10)\<bar>
            \<le> 0.2 + 1 / 10 ^ 15"
      by (rule angle_case [where B = "1237991606604977 / 281474976710656" and ?m1.0 = "4726786445051383" and ?k1.0 = "-50"
            and ?m2.0 = "5177146407788433" and ?k2.0 = "-50"])
        (use r in \<open>simp_all add: fl_eval fmul_def fdiv_def Math_PI_def power_int_minus\<close>)
    with c7 show ?thesis
      by simp
  next
    assume c8: "i = 8"
    have "\<bar>fadd (fdiv (fmul (fmul Math_PI 2) 8) 10) (fmul (fsub r 0.5) (fl 0.4)) - 8 * (2 * pi / 10)\<bar>
            \<le> 0.2 + 1 / 10 ^ 15"
      by (rule angle_case [where B = "176855943800711 / 35184372088832" and ?m1.0 = "5434210220254227" and ?k1.0 = "-50"
            and ?m2.0 = "5884570182991277" and ?k2.0 = "-50"])
        (use r in \<open>simp_all add: fl_eval fmul_def fdiv_def Math_PI_def power_int_minus\<close>)
    with c8 show ?thesis
      by simp
  next
    assume c9: "i = 9"
    have "\<bar>fadd (fdiv (fmul (fmul Math_PI 2) 9) 10) (fmul (fsub r 0.5) (fl 0.4)) - 9 * (2 * pi / 10)\<bar>
            \<le> 0.2 + 1 / 10 ^ 15"
      by (rule angle_case [where B = "1591703494206399 / 281474976710656" and ?m1.0 = "6141633995457071" and ?k1.0 = "-50"
            and ?m2.0 = "6591993958194121" and ?k2.0 = "-50"])
        (use r in \<open>simp_all add: fl_eval fmul_def fdiv_def Math_PI_def power_int_minus\<close>)
    with c9 show ?thesis
      by simp
  qed
qed

section \<open>The loop of \<open>handleClick\<close>\<close>

declare handleClick_loop.simps [simp del]

lemma handleClick_loop_map:
  "handleClick_loop rnd clock cx cy count i created =
     created @ map (\<lambda>i. \<lparr> p_id = clock i + int i, p_x = cx, p_y = cy,
                           p_angle = fadd (fdiv (fmul (fmul Math_PI 2) (real i)) (real count))
                                       (fmul (fsub (rnd (2 * i)) 0.5) (fl 0.4)),
                           p_dist = fadd 36 (fmul (rnd (2 * i + 1)) 28) \<rparr>) [i..<count]"
proof (induction rnd clock cx cy count i created rule: handleClick_loop.induct)
  case (1 rnd clock cx cy count i created)
  show ?case
  proof (cases "i < count")
    case True
    then show ?thesis
      using "1.IH" [OF True refl refl]
      by (subst handleClick_loop.simps) (simp add: upt_conv_Cons Let_def)
  next
    case False
    then show ?thesis
      by (subst handleClick_loop.simps) simp
  qed
qed

lemma handleClick_created_map:
  "handleClick_created rnd clock cx cy =
     map (\<lambda>i. \<lparr> p_id = clock i + int i, p_x = cx, p_y = cy,
                  p_angle = fadd (fdiv (fmul (fmul Math_PI 2) (real i)) 10)
                              (fmul (fsub (rnd (2 * i)) 0.5) (fl 0.4)),
                  p_dist = fadd 36 (fmul (rnd (2 * i + 1)) 28) \<rparr>) [0..<10]"
  by (simp add: handleClick_created_def handleClick_loop_map del: upt.simps)

lemma handleClick_created_nth:
  assumes "i < 10"
  shows "handleClick_created rnd clock cx cy ! i =
           \<lparr> p_id = clock i + int i, p_x = cx, p_y = cy,
             p_angle = fadd (fdiv (fmul (fmul Math_PI 2) (real i)) 10)
                         (fmul (fsub (rnd (2 * i)) 0.5) (fl 0.4)),
             p_dist = fadd 36 (fmul (rnd (2 * i + 1)) 28) \<rparr>"
  using assms by (simp add: handleClick_created_map del: upt.simps)

section \<open>Click particles\<close>

text \<open>
  C1. For every click at \<open>(x, y)\<close>, when every result of \<open>Math.random()\<close> lies in
  \<open>[0, 1)\<close>, the handler appends exactly ten particles to the live list; each has origin
  \<open>(x, y)\<close>, the \<open>i\<close>-th has an angle within \<open>0.2 + 10 ^ - 15\<close> radians of
  \<open>i * (2 * pi / 10)\<close> and a travel distance in the closed range \<open>[36, 64]\<close>.
\<close>

theorem handleClick_spawns:
  assumes "\<forall>k. 0 \<le> rnd k \<and> rnd k < 1"
  shows "\<exists>created.
           particles (handleClick rnd clock x y s) = particles s @ created \<and>
           length created = 10 \<and>
           (\<forall>i<10. p_x (created ! i) = x \<and> p_y (created ! i) = y \<and>
                    \<bar>p_angle (created ! i) - real i * (2 * pi / 10)\<bar> \<le> 0.2 + 1 / 10 ^ 15 \<and>
                    36 \<le> p_dist (created ! i) \<and> p_dist (created ! i) \<le> 64)"
proof (intro exI conjI allI impI)
  show "particles (handleClick rnd clock x y s) = particles s @ handleClick_created rnd clock x y"
    by (simp add: handleClick_def Let_def)
  show "length (handleClick_created rnd clock x y) = 10"
    by (simp add: handleClick_created_map del: upt.simps)
next
  fix i :: nat
  assume i: "i < 10"
  let ?p = "handleClick_created rnd clock x y ! i"
  note nth = handleClick_created_nth [OF i, of rnd clock x y]
  show "p_x ?p = x" "p_y ?p = y"
    by (simp_all add: nth)
  have "0 \<le> rnd (2 * i) \<and> rnd (2 * i) < 1"
    using assms by simp
  with i show "\<bar>p_angle ?p - real i * (2 * pi / 10)\<bar> \<le> 0.2 + 1 / 10 ^ 15"
    unfolding nth by (simp only: particle.simps) (rule angle_bound)
  have "0 \<le> rnd (2 * i + 1)" "rnd (2 * i + 1) < 1"
    using assms by simp_all
  then show "36 \<le> p_dist ?p" "p_dist ?p \<le> 64"
    unfolding nth by (simp_all only: particle.simps dist_bounds)
qed

theorem handleClick_spawns_witness:
  "(\<forall>k::nat. (0::real) \<le> 1 / 2 \<and> (1 / 2 :: real) < 1) \<and>
   (\<exists>created.
      particles (handleClick (\<lambda>k. 1 / 2) (\<lambda>i. 1000) 3 4 initial_cursor) = [] @ created \<and>
      length created = 10 \<and>
      (\<forall>i<10. p_x (created ! i) = 3 \<and> p_y (created ! i) = 4 \<and>
               \<bar>p_angle (created ! i) - real i * (2 * pi / 10)\<bar> \<le> 0.2 + 1 / 10 ^ 15 \<and>
               36 \<le> p_dist (created ! i) \<and> p_dist (created ! i) \<le> 64))"
  using handleClick_spawns [of "\<lambda>k. 1 / 2" "\<lambda>i. 1000" 3 4 initial_cursor]
  by (simp add: initial_cursor_def)

text \<open>
  The bounds cannot be the exact ones. When \<open>Math.random()\<close> returns \<open>1 - 2 ^ - 53\<close>, the
  largest double below 1, the product with 28 rounds to \<open>28 - 2 ^ - 48\<close> and the sum with
  36 is a tie that rounds to 64: the distance is 64, not below it. When it returns 0,
  the angle of the first particle is the negated double \<open>0.2\<close>, which is farther from 0
  than the real number \<open>0.2\<close>.
\<close>

theorem handleClick_spawns_counterexample:
  "\<not> p_dist (particles (handleClick (\<lambda>k. 1 - 1 / 2 ^ 53) (\<lambda>i. 1000) 3 4 initial_cursor) ! 0) < 64 \<and>
   \<not> \<bar>p_angle (particles (handleClick (\<lambda>k. 0) (\<lambda>i. 1000) 3 4 initial_cursor) ! 0)
        - real 0 * (2 * pi / 10)\<bar> \<le> 0.2"
proof -
  have first: "particles (handleClick rnd clock x y initial_cursor) ! 0 =
                 handleClick_created rnd clock x y ! 0" for rnd clock x y
    by (simp add: handleClick_def initial_cursor_def Let_def)
  have d: "fadd 36 (fmul (1 - 1 / 2 ^ 53) 28) = 64"
    by (simp add: fl_eval fadd_def fmul_def)
  have a: "fadd (fdiv (fmul (fmul Math_PI 2) (real 0)) 10) (fmul (fsub 0 0.5) (fl 0.4))
             = - (3602879701896397 / 2 ^ 54)"
    by (simp add: fl_eval fadd_def fmul_def fsub_def fdiv_def)
  have zero: "(0::nat) < 10"
    by simp
  show ?thesis
    unfolding first handleClick_created_nth [OF zero] particle.simps d a
    by simp
qed

text \<open>What the removal callback does in general.\<close>

lemma remove_created_none_left:
  "\<forall>pt \<in> set (particles (remove_created created s)). pt \<notin> set created"
  by (auto simp: remove_created_def list_ex_iff)

lemma remove_created_disjoint_ids:
  assumes "\<forall>pt \<in> set other. \<forall>c \<in> set created. p_id c \<noteq> p_id pt"
  shows "filter (\<lambda>pt. pt \<in> set other) (particles (remove_created created s)) =
         filter (\<lambda>pt. pt \<in> set other) (particles s)"
  using assms unfolding remove_created_def
  by (auto simp: list_ex_iff intro!: filter_cong)







text \<open>
  C2. The removal callback of a batch filters by id, so batches interact when their ids
  overlap: of two clicks handled 5 ms apart, the first batch's callback removes its own
  ten particles and also the five particles of the second batch that share their ids,
  while the timer of the second batch is still pending.
\<close>

theorem overlapping_batches_interact:
  "let s1 = handleClick (\<lambda>k. 1 / 2) (\<lambda>i. 1000) 10 20 initial_cursor;
       s2 = handleClick (\<lambda>k. 1 / 2) (\<lambda>i. 1005) 30 40 s1;
       s3 = fire_timeout 0 s2
   in map p_id (particles s2) =
        [1000, 1001, 1002, 1003, 1004, 1005, 1006, 1007, 1008, 1009,
         1005, 1006, 1007, 1008, 1009, 1010, 1011, 1012, 1013, 1014] \<and>
      map p_id (particles s3) = [1010, 1011, 1012, 1013, 1014] \<and>
      map p_x (particles s3) = [30, 30, 30, 30, 30] \<and>
      map (\<lambda>t. (fst t, map p_id (snd t))) (timeouts s3) =
        [(750, [1005, 1006, 1007, 1008, 1009, 1010, 1011, 1012, 1013, 1014])]"
  by (simp add: Let_def handleClick_def handleClick_created_def handleClick_loop.simps
      fire_timeout_def remove_created_def initial_cursor_def)

section \<open>Project content\<close>

text \<open>
  C3. For every id other than \<open>crm\<close>, \<open>game\<close> and \<open>etl\<close> the lookup returns the
  placeholder of the \<open>default\<close> branch and does not fail: the title is the Russian word
  for "project" (code units \<open>0x41F 0x440 0x43E 0x435 0x43A 0x442\<close>), the only bullet point
  the Russian for "description soon", the technology text and the screenshot list empty.
\<close>

theorem content_unknown:
  assumes "pid \<noteq> ascii ''crm''" "pid \<noteq> ascii ''game''" "pid \<noteq> ascii ''etl''"
  shows "content pid =
           \<lparr> title = [0x41F, 0x440, 0x43E, 0x435, 0x43A, 0x442],
             bullets = [[0x41E, 0x43F, 0x438, 0x441, 0x430, 0x43D, 0x438, 0x435, 0x20,
                         0x441, 0x43A, 0x43E, 0x440, 0x43E]],
             tech = [], screens = [] \<rparr>"
  using assms by (simp add: content_def ascii_def)

theorem content_unknown_witness:
  "ascii ''unknown-id'' \<noteq> ascii ''crm'' \<and> ascii ''unknown-id'' \<noteq> ascii ''game'' \<and>
   ascii ''unknown-id'' \<noteq> ascii ''etl'' \<and>
   content (ascii ''unknown-id'') =
     \<lparr> title = [0x41F, 0x440, 0x43E, 0x435, 0x43A, 0x442],
       bullets = [[0x41E, 0x43F, 0x438, 0x441, 0x430, 0x43D, 0x438, 0x435, 0x20,
                   0x441, 0x43A, 0x43E, 0x440, 0x43E]],
       tech = [], screens = [] \<rparr>"
  using content_unknown [of "ascii ''unknown-id''"]
  by (simp add: ascii_def)

text \<open>The English placeholder of the specification is not what the lookup returns.\<close>

theorem content_unknown_counterexample:
  "content (ascii ''unknown-id'') \<noteq>
     \<lparr> title = ascii ''Project'', bullets = [ascii ''Description coming soon''],
       tech = [], screens = [] \<rparr>"
  by (simp add: content_def ascii_def)

text \<open>
  C6. The contents of \<open>crm\<close>, \<open>game\<close> and \<open>etl\<close> differ from one another and from the
  placeholder (the one of the source and the one the specification words), and each has a
  non-empty title and at least one bullet point.
\<close>

theorem content_known:
  "content (ascii ''crm'') \<noteq> content (ascii ''game'') \<and>
   content (ascii ''crm'') \<noteq> content (ascii ''etl'') \<and>
   content (ascii ''game'') \<noteq> content (ascii ''etl'') \<and>
   (\<forall>pid \<in> {ascii ''crm'', ascii ''game'', ascii ''etl''}.
      content pid \<noteq> default_content \<and> content pid \<noteq> spec_placeholder \<and>
      title (content pid) \<noteq> [] \<and> length (bullets (content pid)) \<ge> 1)"
  by (simp add: content_def default_content_def spec_placeholder_def ascii_def)

theorem content_known_witness:
  "ascii ''game'' \<in> {ascii ''crm'', ascii ''game'', ascii ''etl''} \<and>
   content (ascii ''game'') \<noteq> default_content \<and> content (ascii ''game'') \<noteq> spec_placeholder \<and>
   title (content (ascii ''game'')) \<noteq> [] \<and> length (bullets (content (ascii ''game''))) = 4"
  using content_known
  by (simp add: content_def ascii_def)

section \<open>Pointer tracking\<close>

lemma js_includes_sublist: "js_includes s sub \<longleftrightarrow> sublist sub s"
  by (induction s) (auto simp: sublist_Cons_right)

lemma isDarkBg_chain: "isDarkBg el \<longleftrightarrow> (\<exists>n \<in> set (ancestor_chain el). dark_marker n)"
  by (induction el rule: isDarkBg.induct) (auto simp: dark_marker_def Let_def)

text \<open>
  C4. After a pointer move to \<open>(x, y)\<close> the flag \<open>isDark\<close> is true if and only if some
  element of the ancestor chain of the element at \<open>(x, y)\<close> carries a dark-surface marker;
  it is false when there is no marker in the chain, whatever the flag was before.
\<close>

theorem mm_isDark:
  "isDark (mm elementFromPoint x y s) \<longleftrightarrow>
     (\<exists>n \<in> set (ancestor_chain (elementFromPoint x y)). dark_marker n)"
  by (simp add: mm_def Let_def isDarkBg_chain)

theorem mm_isDark_witness:
  "isDark (mm (\<lambda>x y. Some (Element (Some (ascii ''p-5 rounded''))
             (Some (Element (Some (ascii ''mx-auto bg-black text-white'')) None)))) 3 4 initial_cursor) \<and>
   \<not> isDark (mm (\<lambda>x y. Some (Element (Some (ascii ''p-5 rounded''))
             (Some (Element None None)))) 3 4 (initial_cursor\<lparr>isDark := True\<rparr>))"
  using mm_isDark [of "\<lambda>x y. Some (Element (Some (ascii ''p-5 rounded''))
             (Some (Element (Some (ascii ''mx-auto bg-black text-white'')) None)))" 3 4 initial_cursor]
    mm_isDark [of "\<lambda>x y. Some (Element (Some (ascii ''p-5 rounded''))
             (Some (Element None None)))" 3 4 "initial_cursor\<lparr>isDark := True\<rparr>"]
  by (simp add: dark_marker_def cls_of_def ascii_def)

lemma run_append: "run (es @ es') a = run es' (run es a)"
  by (induction es arbitrary: a) simp_all

lemma step_keeps_pos: "\<not> is_MouseMove e \<Longrightarrow> pos (cursor (step e a)) = pos (cursor a)"
  by (cases e)
    (simp_all add: md_def mu_def handleClick_def fire_timeout_def remove_created_def Let_def)

lemma run_keeps_pos:
  "\<forall>e \<in> set es. \<not> is_MouseMove e \<Longrightarrow> pos (cursor (run es a)) = pos (cursor a)"
  by (induction es arbitrary: a) (simp_all add: step_keeps_pos)

text \<open>
  C7. After any sequence of events the tracked position is the position of the most
  recent pointer move: whatever happened before that move, and whichever other events
  (button presses, clicks, timers, navigation) follow it.
\<close>

theorem pos_last_write_wins:
  assumes "\<forall>e \<in> set rest. \<not> is_MouseMove e"
  shows "pos (cursor (run (es @ MouseMove x y elementFromPoint # rest) a)) = (x, y)"
  using assms by (simp add: run_append run_keeps_pos mm_def Let_def)

theorem pos_last_write_wins_witness:
  "\<not> is_MouseMove MouseDown \<and> \<not> is_MouseMove (Click 5 6 (\<lambda>k. 0) (\<lambda>i. 1000)) \<and>
   \<not> is_MouseMove MouseUp \<and>
   pos (cursor (run ([MouseMove 1 2 (\<lambda>x y. None), MouseMove 3 4 (\<lambda>x y. None)]
                      @ MouseMove 5 6 (\<lambda>x y. None)
                      # [MouseDown, Click 5 6 (\<lambda>k. 0) (\<lambda>i. 1000), MouseUp]) initial_app)) = (5, 6)"
  using pos_last_write_wins [of "[MouseDown, Click 5 6 (\<lambda>k. 0) (\<lambda>i. 1000), MouseUp]"
      "[MouseMove 1 2 (\<lambda>x y. None), MouseMove 3 4 (\<lambda>x y. None)]" 5 6 "\<lambda>x y. None" initial_app]
  by simp

section \<open>Routing\<close>

text \<open>
  C5. For every project id, recognized or not, \<open>onOpen\<close> sets the route to the project
  page of that id, and the page renders; opening \<open>crm\<close> gives the project route of
  \<open>crm\<close>, and going back from there gives the home route.
\<close>

theorem navigation_handlers:
  "onOpen pid r = \<lparr> page = PageProject, route_id = Some pid \<rparr> \<and>
   render (onOpen pid r) = Inr (ProjectPageView pid) \<and>
   onOpen (ascii ''crm'') r = \<lparr> page = PageProject, route_id = Some (ascii ''crm'') \<rparr> \<and>
   page (onBack (onOpen (ascii ''crm'') r)) = PageHome \<and>
   render (onBack (onOpen (ascii ''crm'') r)) = Inr HomeView"
  by (simp add: onOpen_def onBack_def render_def)

lemma page_after_back: "page (app_route (step BackClick a)) = PageHome"
  by (cases "page (app_route a)") (simp_all add: onBack_def)

text \<open>
  C8. Pressing back leads to the home page from every state and after every history,
  never to a project page visited before; and an event changes the route only if it is
  the selection of a project card or the press of the back button.
\<close>

theorem back_goes_home:
  "page (app_route (step BackClick a)) = PageHome \<and>
   page (app_route (run (es @ [BackClick]) a)) = PageHome \<and>
   onBack r = \<lparr> page = PageHome, route_id = None \<rparr> \<and>
   (app_route (step e a) \<noteq> app_route a \<longrightarrow> navigation e)"
proof (intro conjI impI)
  show "page (app_route (step BackClick a)) = PageHome"
    by (rule page_after_back)
  show "page (app_route (run (es @ [BackClick]) a)) = PageHome"
    by (simp only: run_append run.simps page_after_back)
  show "onBack r = \<lparr> page = PageHome, route_id = None \<rparr>"
    by (simp add: onBack_def)
next
  assume "app_route (step e a) \<noteq> app_route a"
  then show "navigation e"
    by (cases e) (simp_all split: if_splits)
qed

theorem back_goes_home_witness:
  "page (app_route (run ([CardClick 0, BackClick, CardClick 2] @ [BackClick]) initial_app)) = PageHome \<and>
   app_route (step (CardClick 0) initial_app) \<noteq> app_route initial_app \<and>
   navigation (CardClick 0)"
  using back_goes_home [of initial_app "[CardClick 0, BackClick, CardClick 2]" initial_route
      "CardClick 0"]
  by (simp add: initial_app_def initial_route_def projects_def onOpen_def)

lemma step_route_inv: "route_inv (app_route a) \<Longrightarrow> route_inv (app_route (step e a))"
  by (cases e) (simp_all add: route_inv_def onOpen_def onBack_def)

lemma run_route_inv: "route_inv (app_route a) \<Longrightarrow> route_inv (app_route (run es a))"
  by (induction es arbitrary: a) (simp_all add: step_route_inv)

lemma route_inv_render: "route_inv r \<Longrightarrow> render r \<noteq> Inl UndefinedId"
  by (cases "page r") (auto simp: route_inv_def render_def split: option.splits)

text \<open>
  C9. Whenever the route is on a project page its \<open>id\<close> is defined: the initial route
  satisfies this, opening a project and going back establish it, so it holds in every
  reachable state, and rendering never meets an undefined \<open>id\<close>.
\<close>

theorem route_id_defined:
  "route_inv initial_route \<and> route_inv (onOpen pid r) \<and> route_inv (onBack r) \<and>
   route_inv (app_route (run es initial_app)) \<and>
   render (app_route (run es initial_app)) \<noteq> Inl UndefinedId"
proof -
  have init: "route_inv (app_route initial_app)"
    by (simp add: initial_app_def initial_route_def route_inv_def)
  have reach: "route_inv (app_route (run es initial_app))"
    using init by (rule run_route_inv)
  show ?thesis
    using reach route_inv_render [OF reach]
    by (simp add: route_inv_def initial_route_def onOpen_def onBack_def)
qed

theorem route_id_defined_witness:
  "page (app_route (run [CardClick 1] initial_app)) = PageProject \<and>
   route_id (app_route (run [CardClick 1] initial_app)) = Some (ascii ''game'') \<and>
   render (app_route (run [CardClick 1] initial_app)) = Inr (ProjectPageView (ascii ''game''))"
  using route_id_defined [of "ascii ''game''" initial_route "[CardClick 1]"]
  by (simp add: initial_app_def initial_route_def projects_def onOpen_def render_def)

end
